theory Spec2Isabelle
  imports Main "HOL-Library.Sublist"
begin

section \<open>Python values\<close>

text \<open>
  The service moves JSON bodies and Python dictionaries around. A value is what
  \<^verbatim>\<open>json.loads\<close> can produce (\<^verbatim>\<open>None\<close>, booleans, numbers, strings, lists,
  dictionaries) or a \<^verbatim>\<open>datetime\<close> object, which \<^verbatim>\<open>create_user\<close> puts into the
  stored dictionary. A float is kept as a mantissa and an exponent; no code path of
  the service looks inside a number. A \<^verbatim>\<open>datetime\<close> is a reading of the local wall
  clock, counted in microseconds; only the order of two readings matters.

  A dictionary is an association list in insertion order, read with \<open>map_of\<close>
  (a dictionary holds each key once).
\<close>

type_synonym datetime = int

datatype pyval =
    PNone
  | PBool bool
  | PInt int
  | PFloat int int
  | PStr string
  | PDatetime datetime
  | PList "pyval list"
  | PDict "(string \<times> pyval) list"

type_synonym pydict = "(string \<times> pyval) list"

fun field :: "string \<Rightarrow> pyval \<Rightarrow> pyval option" where
  "field k (PDict d) = map_of d k"
| "field k _ = None"


section \<open>Validation errors\<close>

text \<open>
  One entry of the \<^verbatim>\<open>detail\<close> list of a validation failure: the location of the
  offending field (\<^verbatim>\<open>["body", "username"]\<close>) and the kind of the error. A failure
  of the request body is answered with status 422; a returned object that does not fit
  the \<^verbatim>\<open>response_model\<close> is a server error, status 500.
\<close>

type_synonym loc = "string list"

datatype err_type = missing | string_type | value_error | model_attributes_type | datetime_type

type_synonym field_error = "loc \<times> err_type"

datatype error =
    RequestValidationError "field_error list"
  | ResponseValidationError "field_error list"

fun errors_of :: "field_error list + 'a \<Rightarrow> field_error list" where
  "errors_of (Inl es) = es"
| "errors_of (Inr _) = []"


section \<open>models.py\<close>

text \<open>
  The two schemas are declared, not programmed: each field is a name with a type
  annotation, and the validation library checks a dictionary against them, field by
  field in declaration order, collecting one error per offending field. The functions
  below are the checks the annotations \<^verbatim>\<open>str\<close>, \<^verbatim>\<open>EmailStr\<close>, \<^verbatim>\<open>Optional[str] = None\<close>
  and \<^verbatim>\<open>datetime\<close> stand for, applied to the result of looking the field up. A
  \<^verbatim>\<open>str\<close> field takes a string and nothing else (a number in the body is not turned
  into text); an \<^verbatim>\<open>Optional[str] = None\<close> field takes a string, \<^verbatim>\<open>None\<close>, or no
  entry at all.

  \<^verbatim>\<open>EmailStr\<close> hands the string to an e-mail address validator that lives outside this
  repository. It is the parameter \<open>ev\<close> throughout: \<open>ev s = None\<close> when the address is
  rejected, \<open>ev s = Some n\<close> when it is accepted, \<open>n\<close> being the normalised address
  that the validated model carries.
\<close>

type_synonym email_validator = "string \<Rightarrow> string option"

fun validate_str :: "loc \<Rightarrow> pyval option \<Rightarrow> field_error list + string" where
  "validate_str l None = Inl [(l, missing)]"
| "validate_str l (Some (PStr s)) = Inr s"
| "validate_str l (Some _) = Inl [(l, string_type)]"

fun validate_EmailStr ::
  "email_validator \<Rightarrow> loc \<Rightarrow> pyval option \<Rightarrow> field_error list + string" where
  "validate_EmailStr ev l None = Inl [(l, missing)]"
| "validate_EmailStr ev l (Some (PStr s)) =
     (case ev s of None \<Rightarrow> Inl [(l, value_error)] | Some n \<Rightarrow> Inr n)"
| "validate_EmailStr ev l (Some _) = Inl [(l, string_type)]"

fun validate_optional_str :: "loc \<Rightarrow> pyval option \<Rightarrow> field_error list + string option" where
  "validate_optional_str l None = Inr None"
| "validate_optional_str l (Some PNone) = Inr None"
| "validate_optional_str l (Some (PStr s)) = Inr (Some s)"
| "validate_optional_str l (Some _) = Inl [(l, string_type)]"

text \<open>
  The library would also try to read a number or an ISO string as a \<^verbatim>\<open>datetime\<close>;
  \<^verbatim>\<open>create_user\<close> only ever supplies a \<^verbatim>\<open>datetime\<close> object, and that is the one
  accepting case written out here.
\<close>

fun validate_datetime :: "loc \<Rightarrow> pyval option \<Rightarrow> field_error list + datetime" where
  "validate_datetime l None = Inl [(l, missing)]"
| "validate_datetime l (Some (PDatetime t)) = Inr t"
| "validate_datetime l (Some _) = Inl [(l, datetime_type)]"

record UserCreate =
  username :: string
  email :: string
  password :: string
  full_name :: "string option"

record UserOut =
  username :: string
  email :: string
  full_name :: "string option"
  join_date :: datetime

definition UserCreate_fields :: "string list" where
  "UserCreate_fields = [''username'', ''email'', ''password'', ''full_name'']"

text \<open>
  Validating a request body against \<^verbatim>\<open>UserCreate\<close>. Keys of the body that are not
  declared fields are never looked at (the library's default is to ignore them). A
  body that is not a dictionary fails as a whole.
\<close>

definition UserCreate_validate ::
  "email_validator \<Rightarrow> pyval \<Rightarrow> field_error list + UserCreate" where
  "UserCreate_validate ev body =
     (case body of
        PDict d \<Rightarrow>
          (let u = validate_str [''body'', ''username''] (map_of d ''username'');
               e = validate_EmailStr ev [''body'', ''email''] (map_of d ''email'');
               p = validate_str [''body'', ''password''] (map_of d ''password'');
               f = validate_optional_str [''body'', ''full_name''] (map_of d ''full_name'')
           in case (u, e, p, f) of
                (Inr u', Inr e', Inr p', Inr f') \<Rightarrow>
                  Inr \<lparr>UserCreate.username = u', UserCreate.email = e',
                       password = p', UserCreate.full_name = f'\<rparr>
              | _ \<Rightarrow> Inl (errors_of u @ errors_of e @ errors_of p @ errors_of f))
      | PNone \<Rightarrow> Inl [([''body''], missing)]
      | _ \<Rightarrow> Inl [([''body''], model_attributes_type)])"

text \<open>
  Shaping a returned dictionary through \<^verbatim>\<open>UserOut\<close>: the four declared fields are
  read from it and validated again (the address goes through the validator a second
  time); anything else in the dictionary is left behind.
\<close>

definition UserOut_validate ::
  "email_validator \<Rightarrow> pydict \<Rightarrow> field_error list + UserOut" where
  "UserOut_validate ev obj =
     (let u = validate_str [''response'', ''username''] (map_of obj ''username'');
          e = validate_EmailStr ev [''response'', ''email''] (map_of obj ''email'');
          f = validate_optional_str [''response'', ''full_name''] (map_of obj ''full_name'');
          j = validate_datetime [''response'', ''join_date''] (map_of obj ''join_date'')
      in case (u, e, f, j) of
           (Inr u', Inr e', Inr f', Inr j') \<Rightarrow>
             Inr \<lparr>username = u', email = e', full_name = f', join_date = j'\<rparr>
         | _ \<Rightarrow> Inl (errors_of u @ errors_of e @ errors_of f @ errors_of j))"

fun optional_str :: "string option \<Rightarrow> pyval" where
  "optional_str None = PNone"
| "optional_str (Some s) = PStr s"

text \<open>The response body: the fields of the \<^verbatim>\<open>UserOut\<close> object, in declaration order.\<close>

definition UserOut_dump :: "UserOut \<Rightarrow> pydict" where
  "UserOut_dump out =
     [(''username'', PStr (UserOut.username out)),
      (''email'', PStr (UserOut.email out)),
      (''full_name'', optional_str (UserOut.full_name out)),
      (''join_date'', PDatetime (join_date out))]"


section \<open>main.py\<close>

text \<open>
  The module-level list \<^verbatim>\<open>fake_db\<close> is the state; every handler takes it and returns
  it. \<^verbatim>\<open>datetime.now()\<close> is an input of \<^verbatim>\<open>create_user\<close>: the reading \<open>now\<close> of the
  clock at the call.
\<close>

type_synonym store = "pydict list"

definition create_user :: "datetime \<Rightarrow> UserCreate \<Rightarrow> store \<Rightarrow> pydict \<times> store" where
  "create_user now user_data fake_db =
     (let db_user =
            [(''username'', PStr (UserCreate.username user_data)),
             (''email'', PStr (UserCreate.email user_data)),
             (''full_name'', optional_str (UserCreate.full_name user_data)),
             (''join_date'', PDatetime now),
             (''hashed_password'', PStr (''hashed_'' @ password user_data))]
      in (db_user, fake_db @ [db_user]))"

definition root :: "store \<Rightarrow> pydict \<times> store" where
  "root fake_db = ([(''message'', PStr ''FastAPI Server is running!'')], fake_db)"

definition get_all_users :: "store \<Rightarrow> pydict list \<times> store" where
  "get_all_users fake_db = (fake_db, fake_db)"

text \<open>
  The route \<^verbatim>\<open>POST /users/\<close> as the decorator sets it up: the body is validated
  against \<^verbatim>\<open>UserCreate\<close> before the handler runs, and what the handler returns is
  shaped through \<^verbatim>\<open>UserOut\<close> after it has run.
\<close>

definition post_users ::
  "email_validator \<Rightarrow> datetime \<Rightarrow> pyval \<Rightarrow> store \<Rightarrow> (error + pydict) \<times> store" where
  "post_users ev now body fake_db =
     (case UserCreate_validate ev body of
        Inl es \<Rightarrow> (Inl (RequestValidationError es), fake_db)
      | Inr user_data \<Rightarrow>
          (case create_user now user_data fake_db of
             (db_user, fake_db') \<Rightarrow>
               (case UserOut_validate ev db_user of
                  Inl es \<Rightarrow> (Inl (ResponseValidationError es), fake_db')
                | Inr out \<Rightarrow> (Inr (UserOut_dump out), fake_db'))))"

fun status_code :: "error + pydict \<Rightarrow> nat" where
  "status_code (Inr _) = 201"
| "status_code (Inl (RequestValidationError _)) = 422"
| "status_code (Inl (ResponseValidationError _)) = 500"


section \<open>Request histories\<close>

datatype request = POST_users pyval | GET_root | GET_users

fun step :: "email_validator \<Rightarrow> datetime \<times> request \<Rightarrow> store \<Rightarrow> store" where
  "step ev (now, POST_users body) fake_db = snd (post_users ev now body fake_db)"
| "step ev (now, GET_root) fake_db = snd (root fake_db)"
| "step ev (now, GET_users) fake_db = snd (get_all_users fake_db)"

text \<open>The store after a history of requests, the process having started with \<^verbatim>\<open>fake_db = []\<close>.\<close>

definition run :: "email_validator \<Rightarrow> (datetime \<times> request) list \<Rightarrow> store" where
  "run ev reqs = fold (step ev) reqs []"

text \<open>A sequence of registrations every one of which is answered with 201.\<close>

fun register_all :: "email_validator \<Rightarrow> (datetime \<times> pyval) list \<Rightarrow> store \<Rightarrow> store option" where
  "register_all ev [] fake_db = Some fake_db"
| "register_all ev ((now, body) # rest) fake_db =
     (case post_users ev now body fake_db of
        (Inr _, fake_db') \<Rightarrow> register_all ev rest fake_db'
      | (Inl _, _) \<Rightarrow> None)"

fun join_date_of :: "pydict \<Rightarrow> datetime option" where
  "join_date_of r = (case map_of r ''join_date'' of Some (PDatetime t) \<Rightarrow> Some t | _ \<Rightarrow> None)"

definition nondecreasing_join_dates :: "store \<Rightarrow> bool" where
  "nondecreasing_join_dates db =
     (case those (map join_date_of db) of Some ts \<Rightarrow> sorted ts | None \<Rightarrow> False)"


text \<open>The dictionary that \<^verbatim>\<open>create_user\<close> builds, and the one a request body leads to.\<close>

definition db_user_of :: "datetime \<Rightarrow> UserCreate \<Rightarrow> pydict" where
  "db_user_of now user_data = fst (create_user now user_data [])"

definition stored_record :: "email_validator \<Rightarrow> datetime \<Rightarrow> pyval \<Rightarrow> pydict option" where
  "stored_record ev now body =
     (case UserCreate_validate ev body of
        Inl _ \<Rightarrow> None
      | Inr user_data \<Rightarrow> Some (db_user_of now user_data))"

text \<open>A value of the \<^verbatim>\<open>email\<close> key that is no e-mail address: not a string, or a string the validator rejects.\<close>

fun rejected_email :: "email_validator \<Rightarrow> pyval \<Rightarrow> bool" where
  "rejected_email ev (PStr s) = (ev s = None)"
| "rejected_email ev _ = True"

text \<open>What every record of the store looks like (shown below to hold in every reachable store).\<close>

definition well_formed_record :: "email_validator \<Rightarrow> pydict \<Rightarrow> bool" where
  "well_formed_record ev r \<longleftrightarrow>
     map fst r = [''username'', ''email'', ''full_name'', ''join_date'', ''hashed_password'']
     \<and> (\<exists>u. map_of r ''username'' = Some (PStr u))
     \<and> (\<exists>s n. ev s = Some n \<and> map_of r ''email'' = Some (PStr n))
     \<and> (\<exists>p. map_of r ''hashed_password'' = Some (PStr (''hashed_'' @ p)))"


section \<open>A concrete address validator and concrete requests\<close>

text \<open>
  Modelled from the spec: the grammar check behind \<^verbatim>\<open>EmailStr\<close> is not part of this
  repository. The specification asks for "standard email address grammar
  (local-part@domain)"; this validator accepts a string with exactly one \<^verbatim>\<open>@\<close>, a
  non-empty local part before it and a non-empty domain after it, and returns the
  address as it is. It is used only to run the service on concrete requests; every
  general theorem below holds for any validator.
\<close>

definition email_syntax :: email_validator where
  "email_syntax s =
     (let local_part = takeWhile (\<lambda>c. c \<noteq> CHR ''@'') s;
          rest = dropWhile (\<lambda>c. c \<noteq> CHR ''@'') s
      in if local_part \<noteq> [] \<and> rest \<noteq> [] \<and> tl rest \<noteq> [] \<and> CHR ''@'' \<notin> set (tl rest)
         then Some s else None)"

text \<open>The two bodies that \<^verbatim>\<open>test_api.py\<close> posts.\<close>

definition test_user_data :: pydict where
  "test_user_data =
     [(''username'', PStr ''johndoe''), (''email'', PStr ''john@example.com''),
      (''password'', PStr ''securepassword123''), (''full_name'', PStr ''John Doe'')]"

definition test_invalid_data :: pydict where
  "test_invalid_data =
     [(''email'', PStr ''john@example.com''), (''password'', PStr ''securepassword123'')]"

text \<open>The record that the first of them leaves in the store when the clock reads \<open>now\<close>.\<close>

definition johndoe_record :: "datetime \<Rightarrow> pydict" where
  "johndoe_record now =
     [(''username'', PStr ''johndoe''), (''email'', PStr ''john@example.com''),
      (''full_name'', PStr ''John Doe''), (''join_date'', PDatetime now),
      (''hashed_password'', PStr ''hashed_securepassword123'')]"

definition johndoe_response :: "datetime \<Rightarrow> pydict" where
  "johndoe_response now =
     [(''username'', PStr ''johndoe''), (''email'', PStr ''john@example.com''),
      (''full_name'', PStr ''John Doe''), (''join_date'', PDatetime now)]"


section \<open>The field checks\<close>

lemma validate_str_Inr: "validate_str l x = Inr s \<longleftrightarrow> x = Some (PStr s)"
  by (cases "(l, x)" rule: validate_str.cases) auto

lemma validate_EmailStr_Inr:
  "validate_EmailStr ev l x = Inr n \<longleftrightarrow> (\<exists>s. x = Some (PStr s) \<and> ev s = Some n)"
  by (cases "(ev, l, x)" rule: validate_EmailStr.cases) (auto split: option.splits)

lemma validate_optional_str_Inr:
  "validate_optional_str l x = Inr f \<longleftrightarrow>
     (x = None \<and> f = None) \<or> (x = Some PNone \<and> f = None)
     \<or> (\<exists>s. x = Some (PStr s) \<and> f = Some s)"
  by (cases "(l, x)" rule: validate_optional_str.cases) auto

lemma validate_optional_str_optional_str: "validate_optional_str l (Some (optional_str f)) = Inr f"
  by (cases f) auto

lemma field_Some: "field k body = Some v \<longleftrightarrow> (\<exists>d. body = PDict d \<and> map_of d k = Some v)"
  by (cases body) auto


section \<open>What the request schema accepts\<close>

lemma UserCreate_validate_Inr:
  "UserCreate_validate ev body = Inr ud \<longleftrightarrow>
     (\<exists>d e. body = PDict d
        \<and> map_of d ''username'' = Some (PStr (UserCreate.username ud))
        \<and> map_of d ''email'' = Some (PStr e) \<and> ev e = Some (UserCreate.email ud)
        \<and> map_of d ''password'' = Some (PStr (password ud))
        \<and> validate_optional_str [''body'', ''full_name''] (map_of d ''full_name'')
            = Inr (UserCreate.full_name ud))"
  by (cases body)
    (auto simp: UserCreate_validate_def Let_def validate_str_Inr validate_EmailStr_Inr
      split: sum.splits)

lemma UserCreate_validate_missing:
  assumes "k \<in> {''username'', ''email'', ''password''}" and "map_of d k = None"
  shows "\<exists>es. UserCreate_validate ev (PDict d) = Inl es \<and> ([''body'', k], missing) \<in> set es"
proof -
  let ?u = "validate_str [''body'', ''username''] (map_of d ''username'')"
  let ?e = "validate_EmailStr ev [''body'', ''email''] (map_of d ''email'')"
  let ?p = "validate_str [''body'', ''password''] (map_of d ''password'')"
  let ?f = "validate_optional_str [''body'', ''full_name''] (map_of d ''full_name'')"
  from assms have "\<not> (\<exists>u' e' p'. ?u = Inr u' \<and> ?e = Inr e' \<and> ?p = Inr p')"
    by (auto simp: validate_str_Inr validate_EmailStr_Inr)
  then have eq: "UserCreate_validate ev (PDict d)
      = Inl (errors_of ?u @ errors_of ?e @ errors_of ?p @ errors_of ?f)"
    by (auto simp: UserCreate_validate_def Let_def split: sum.splits)
  from assms have "([''body'', k], missing) \<in> set (errors_of ?u @ errors_of ?e @ errors_of ?p)"
    by auto
  with eq show ?thesis by auto
qed

lemma UserCreate_validate_not_dict:
  "\<forall>d. body \<noteq> PDict d \<Longrightarrow> \<exists>es. UserCreate_validate ev body = Inl es \<and> es \<noteq> []"
  by (cases body) (simp_all add: UserCreate_validate_def)

lemma UserCreate_validate_bad_email:
  assumes "map_of d ''email'' = Some v" and "rejected_email ev v"
  shows "\<exists>es t. UserCreate_validate ev (PDict d) = Inl es \<and> ([''body'', ''email''], t) \<in> set es"
proof -
  let ?u = "validate_str [''body'', ''username''] (map_of d ''username'')"
  let ?e = "validate_EmailStr ev [''body'', ''email''] (map_of d ''email'')"
  let ?p = "validate_str [''body'', ''password''] (map_of d ''password'')"
  let ?f = "validate_optional_str [''body'', ''full_name''] (map_of d ''full_name'')"
  from assms have "\<exists>t. ?e = Inl [([''body'', ''email''], t)]"
    by (cases v) auto
  then obtain t where t: "?e = Inl [([''body'', ''email''], t)]" ..
  then have "UserCreate_validate ev (PDict d)
      = Inl (errors_of ?u @ errors_of ?e @ errors_of ?p @ errors_of ?f)"
    by (auto simp: UserCreate_validate_def Let_def split: sum.splits)
  moreover have "([''body'', ''email''], t)
      \<in> set (errors_of ?u @ errors_of ?e @ errors_of ?p @ errors_of ?f)"
    by (simp add: t)
  ultimately show ?thesis by blast
qed


section \<open>What the handler stores and what the route answers\<close>

lemma create_user_eq: "create_user now ud db = (db_user_of now ud, db @ [db_user_of now ud])"
  by (simp add: create_user_def db_user_of_def Let_def)

lemma db_user_of_simps:
  "map fst (db_user_of now ud)
     = [''username'', ''email'', ''full_name'', ''join_date'', ''hashed_password'']"
  "map_of (db_user_of now ud) ''username'' = Some (PStr (UserCreate.username ud))"
  "map_of (db_user_of now ud) ''email'' = Some (PStr (UserCreate.email ud))"
  "map_of (db_user_of now ud) ''join_date'' = Some (PDatetime now)"
  "map_of (db_user_of now ud) ''hashed_password'' = Some (PStr (''hashed_'' @ password ud))"
  by (simp_all add: db_user_of_def create_user_def Let_def)

lemma UserOut_validate_db_user:
  "UserOut_validate ev (db_user_of now ud) =
     (case ev (UserCreate.email ud) of
        None \<Rightarrow> Inl [([''response'', ''email''], value_error)]
      | Some m \<Rightarrow> Inr \<lparr>username = UserCreate.username ud, email = m,
                       full_name = UserCreate.full_name ud, join_date = now\<rparr>)"
  by (simp add: UserOut_validate_def db_user_of_def create_user_def Let_def
      validate_optional_str_optional_str split: option.splits)

lemma post_users_Inr:
  "post_users ev now body db = (Inr r, db') \<longleftrightarrow>
     (\<exists>ud m. UserCreate_validate ev body = Inr ud \<and> ev (UserCreate.email ud) = Some m
        \<and> r = [(''username'', PStr (UserCreate.username ud)), (''email'', PStr m),
               (''full_name'', optional_str (UserCreate.full_name ud)),
               (''join_date'', PDatetime now)]
        \<and> db' = db @ [db_user_of now ud])"
  by (auto simp: post_users_def create_user_eq UserOut_validate_db_user UserOut_dump_def
      split: sum.splits option.splits)

lemma post_users_request_error:
  "UserCreate_validate ev body = Inl es \<Longrightarrow>
     post_users ev now body db = (Inl (RequestValidationError es), db)"
  by (simp add: post_users_def)

lemma post_users_store:
  "snd (post_users ev now body db) = db
   \<or> (\<exists>ud. UserCreate_validate ev body = Inr ud
         \<and> snd (post_users ev now body db) = db @ [db_user_of now ud])"
  by (auto simp: post_users_def create_user_eq split: sum.splits)

lemma post_users_appends:
  assumes "post_users ev now body db = (Inr r, db')"
  shows "\<exists>d ud. body = PDict d \<and> UserCreate_validate ev body = Inr ud
           \<and> map_of d ''username'' = Some (PStr (UserCreate.username ud))
           \<and> map_of d ''password'' = Some (PStr (password ud))
           \<and> db' = db @ [db_user_of now ud]"
  using assms by (auto simp: post_users_Inr UserCreate_validate_Inr)


section \<open>Reachable stores\<close>

lemma step_cases:
  "step ev req db = db \<or>
   (\<exists>now body ud. req = (now, POST_users body) \<and> UserCreate_validate ev body = Inr ud
      \<and> step ev req db = db @ [db_user_of now ud])"
proof (cases req)
  case (Pair now rq)
  then show ?thesis
    using post_users_store [of ev now _ db]
    by (cases rq) (auto simp: root_def get_all_users_def)
qed

lemma step_prefix: "prefix db (step ev req db)"
  using step_cases [of ev req db] by auto

lemma well_formed_db_user:
  "UserCreate_validate ev body = Inr ud \<Longrightarrow> well_formed_record ev (db_user_of now ud)"
  by (auto simp: well_formed_record_def db_user_of_simps UserCreate_validate_Inr)

lemma step_well_formed:
  "\<forall>r \<in> set db. well_formed_record ev r \<Longrightarrow>
   \<forall>r \<in> set (step ev req db). well_formed_record ev r"
  using step_cases [of ev req db] by (auto simp: well_formed_db_user)

lemma fold_step_well_formed:
  "\<forall>r \<in> set db. well_formed_record ev r \<Longrightarrow>
   \<forall>r \<in> set (fold (step ev) reqs db). well_formed_record ev r"
proof (induction reqs arbitrary: db)
  case Nil
  then show ?case by simp
next
  case (Cons req reqs)
  from Cons.prems have "\<forall>r \<in> set (step ev req db). well_formed_record ev r"
    by (rule step_well_formed)
  then show ?case by (simp add: Cons.IH)
qed

lemma run_well_formed: "r \<in> set (run ev reqs) \<Longrightarrow> well_formed_record ev r"
  using fold_step_well_formed [of "[]" ev reqs] by (simp add: run_def)

lemma those_map_Some: "those (map Some ts) = Some ts"
  by (induction ts) simp_all

lemma register_all_store:
  "register_all ev xs db = Some db' \<Longrightarrow>
     map Some db' = map Some db @ map (\<lambda>(t, body). stored_record ev t body) xs
     \<and> map (\<lambda>r. map_of r ''username'') db'
         = map (\<lambda>r. map_of r ''username'') db @ map (\<lambda>(t, body). field ''username'' body) xs
     \<and> map join_date_of db' = map join_date_of db @ map (\<lambda>(t, body). Some t) xs"
proof (induction xs arbitrary: db)
  case Nil
  then show ?case by simp
next
  case (Cons x xs)
  obtain now body where x: "x = (now, body)" by (cases x)
  from Cons.prems obtain r db1 where
    ok: "post_users ev now body db = (Inr r, db1)" and rest: "register_all ev xs db1 = Some db'"
    by (auto simp: x split: prod.splits sum.splits)
  from post_users_appends [OF ok] obtain d ud where
    body: "body = PDict d" and ud: "UserCreate_validate ev body = Inr ud"
    and u: "map_of d ''username'' = Some (PStr (UserCreate.username ud))"
    and db1: "db1 = db @ [db_user_of now ud]"
    by blast
  from Cons.IH [OF rest] show ?case
    by (simp add: x db1 stored_record_def ud [unfolded body] body u db_user_of_simps)
qed

lemma register_all_run:
  "register_all ev xs db = Some db' \<Longrightarrow>
     fold (step ev) (map (\<lambda>(t, body). (t, POST_users body)) xs) db = db'"
proof (induction xs arbitrary: db)
  case Nil
  then show ?case by simp
next
  case (Cons x xs)
  then show ?case
    by (cases x) (auto split: prod.splits sum.splits)
qed


section \<open>The service on concrete requests\<close>

lemmas service_defs =
  post_users_def UserCreate_validate_def UserOut_validate_def create_user_def UserOut_dump_def
  Let_def email_syntax_def

lemma post_users_test_user_data:
  "post_users email_syntax now (PDict test_user_data) db
     = (Inr (johndoe_response now), db @ [johndoe_record now])"
  by (simp add: service_defs test_user_data_def johndoe_response_def johndoe_record_def)

lemma post_users_test_invalid_data:
  "post_users email_syntax now (PDict test_invalid_data) db
     = (Inl (RequestValidationError [([''body'', ''username''], missing)]), db)"
  by (simp add: service_defs test_invalid_data_def)

section \<open>Claims about registration\<close>

text \<open>
  C1, as stated, names the fields of the response \<^verbatim>\<open>username\<close>, \<^verbatim>\<open>email\<close>,
  \<^verbatim>\<open>full_name\<close> and \<^verbatim>\<open>joined_at\<close>. The response to the body that \<^verbatim>\<open>test_api.py\<close>
  posts has no \<^verbatim>\<open>joined_at\<close> key: \<^verbatim>\<open>UserOut\<close> declares the time stamp as
  \<^verbatim>\<open>join_date\<close>, and that is the key on the wire.
\<close>

theorem response_fields_counterexample:
  "fst (post_users email_syntax 7 (PDict test_user_data) []) = Inr (johndoe_response 7)
   \<and> map fst (johndoe_response 7) = [''username'', ''email'', ''full_name'', ''join_date'']
   \<and> map fst (johndoe_response 7) \<noteq> [''username'', ''email'', ''full_name'', ''joined_at'']
   \<and> map_of (johndoe_response 7) ''joined_at'' = None"
  by (simp add: post_users_test_user_data) (simp add: johndoe_response_def)

text \<open>
  C1 (amended): for every successful registration, the response shaped through
  \<^verbatim>\<open>UserOut\<close> has exactly the fields \<^verbatim>\<open>username\<close>, \<^verbatim>\<open>email\<close>, \<^verbatim>\<open>full_name\<close>,
  \<^verbatim>\<open>join_date\<close>, in this order. It has no \<^verbatim>\<open>password\<close> and no \<^verbatim>\<open>hashed_password\<close>
  field, and nothing in it depends on the submitted password: any body with the same
  \<^verbatim>\<open>username\<close>, \<^verbatim>\<open>email\<close> and \<^verbatim>\<open>full_name\<close> and any other password string, posted
  at the same clock reading against any store, gets the very same response.
\<close>

theorem response_redaction:
  assumes "post_users ev now body db = (Inr r, db')"
  shows "map fst r = [''username'', ''email'', ''full_name'', ''join_date'']
     \<and> map_of r ''password'' = None \<and> map_of r ''hashed_password'' = None
     \<and> (\<forall>body' db2.
          (\<forall>k \<in> {''username'', ''email'', ''full_name''}. field k body' = field k body)
          \<and> (\<exists>p'. field ''password'' body' = Some (PStr p'))
          \<longrightarrow> fst (post_users ev now body' db2) = Inr r)"
proof -
  from assms obtain ud m where
    ud: "UserCreate_validate ev body = Inr ud" and m: "ev (UserCreate.email ud) = Some m"
    and r: "r = [(''username'', PStr (UserCreate.username ud)), (''email'', PStr m),
               (''full_name'', optional_str (UserCreate.full_name ud)),
               (''join_date'', PDatetime now)]"
    by (auto simp: post_users_Inr)
  from ud obtain d e where body: "body = PDict d"
    and du: "map_of d ''username'' = Some (PStr (UserCreate.username ud))"
    and de: "map_of d ''email'' = Some (PStr e)" and e: "ev e = Some (UserCreate.email ud)"
    and df: "validate_optional_str [''body'', ''full_name''] (map_of d ''full_name'')
            = Inr (UserCreate.full_name ud)"
    by (auto simp: UserCreate_validate_Inr)
  have "map fst r = [''username'', ''email'', ''full_name'', ''join_date'']"
    and "map_of r ''password'' = None" and "map_of r ''hashed_password'' = None"
    by (simp_all add: r)
  moreover have "fst (post_users ev now body' db2) = Inr r"
    if agree: "\<forall>k \<in> {''username'', ''email'', ''full_name''}. field k body' = field k body"
      and pw: "field ''password'' body' = Some (PStr p')" for body' db2 p'
  proof -
    from pw obtain d' where body': "body' = PDict d'"
      and dp: "map_of d' ''password'' = Some (PStr p')"
      by (auto simp: field_Some)
    from agree have "map_of d' ''username'' = map_of d ''username''"
      "map_of d' ''email'' = map_of d ''email''" "map_of d' ''full_name'' = map_of d ''full_name''"
      by (simp_all add: body body')
    with du de e df dp have "UserCreate_validate ev body' = Inr (ud\<lparr>password := p'\<rparr>)"
      by (simp add: UserCreate_validate_Inr body')
    with m have "post_users ev now body' db2
        = (Inr r, db2 @ [db_user_of now (ud\<lparr>password := p'\<rparr>)])"
      by (simp add: post_users_Inr r)
    then show ?thesis by simp
  qed
  ultimately show ?thesis by blast
qed

theorem response_redaction_witness:
  "post_users email_syntax 7 (PDict test_user_data) [] = (Inr (johndoe_response 7), [johndoe_record 7])
   \<and> map fst (johndoe_response 7) = [''username'', ''email'', ''full_name'', ''join_date'']
   \<and> map_of (johndoe_response 7) ''password'' = None
   \<and> map_of (johndoe_response 7) ''hashed_password'' = None
   \<and> fst (post_users email_syntax 7
        (PDict [(''password'', PStr ''hunter2''), (''username'', PStr ''johndoe''),
                (''full_name'', PStr ''John Doe''), (''email'', PStr ''john@example.com'')])
        [johndoe_record 3])
     = Inr (johndoe_response 7)"
proof -
  let ?other = "PDict [(''password'', PStr ''hunter2''), (''username'', PStr ''johndoe''),
                (''full_name'', PStr ''John Doe''), (''email'', PStr ''john@example.com'')]"
  have ok: "post_users email_syntax 7 (PDict test_user_data) []
      = (Inr (johndoe_response 7), [johndoe_record 7])"
    by (simp add: post_users_test_user_data)
  have same: "(\<forall>k \<in> {''username'', ''email'', ''full_name''}.
                 field k ?other = field k (PDict test_user_data))
              \<and> (\<exists>p'. field ''password'' ?other = Some (PStr p'))"
    by (simp add: test_user_data_def)
  from response_redaction [OF ok] same ok show ?thesis by blast
qed

text \<open>
  C2: a body that lacks one of the required fields \<^verbatim>\<open>username\<close>, \<^verbatim>\<open>email\<close>,
  \<^verbatim>\<open>password\<close> (a body that is no dictionary lacks them all) is answered with a
  request validation error, status 422, whose detail list is not empty and, for a
  dictionary, has a \<^verbatim>\<open>missing\<close> entry located at that field; the store is returned
  as it was. Every registration that succeeds (status 201) returns the store with
  exactly one record appended.
\<close>

theorem missing_required_field_rejected:
  "(k \<in> {''username'', ''email'', ''password''} \<and> field k body = None \<longrightarrow>
      (\<exists>es. post_users ev now body db = (Inl (RequestValidationError es), db)
         \<and> status_code (fst (post_users ev now body db)) = 422
         \<and> es \<noteq> []
         \<and> (\<forall>d. body = PDict d \<longrightarrow> ([''body'', k], missing) \<in> set es)))
   \<and> (post_users ev now2 body2 db2 = (Inr r, db2') \<longrightarrow>
        (\<exists>rec. db2' = db2 @ [rec]) \<and> length db2' = length db2 + 1
        \<and> status_code (fst (post_users ev now2 body2 db2)) = 201)"
proof (intro conjI impI)
  assume h: "k \<in> {''username'', ''email'', ''password''} \<and> field k body = None"
  have "\<exists>es. UserCreate_validate ev body = Inl es \<and> es \<noteq> []
          \<and> (\<forall>d. body = PDict d \<longrightarrow> ([''body'', k], missing) \<in> set es)"
  proof (cases "\<exists>d. body = PDict d")
    case True
    then obtain d where d: "body = PDict d" by blast
    with h UserCreate_validate_missing [of k d ev] show ?thesis by auto
  next
    case False
    with UserCreate_validate_not_dict [of body ev] show ?thesis by auto
  qed
  then show "\<exists>es. post_users ev now body db = (Inl (RequestValidationError es), db)
         \<and> status_code (fst (post_users ev now body db)) = 422
         \<and> es \<noteq> []
         \<and> (\<forall>d. body = PDict d \<longrightarrow> ([''body'', k], missing) \<in> set es)"
    by (auto simp: post_users_request_error)
next
  assume ok: "post_users ev now2 body2 db2 = (Inr r, db2')"
  then show "\<exists>rec. db2' = db2 @ [rec]" "length db2' = length db2 + 1"
    by (auto simp: post_users_Inr)
  from ok show "status_code (fst (post_users ev now2 body2 db2)) = 201"
    by simp
qed

theorem missing_required_field_rejected_witness:
  "field ''username'' (PDict test_invalid_data) = None
   \<and> post_users email_syntax 7 (PDict test_invalid_data) [johndoe_record 3]
       = (Inl (RequestValidationError [([''body'', ''username''], missing)]), [johndoe_record 3])
   \<and> status_code (fst (post_users email_syntax 7 (PDict test_invalid_data) [johndoe_record 3])) = 422
   \<and> post_users email_syntax 7 (PDict test_user_data) [johndoe_record 3]
       = (Inr (johndoe_response 7), [johndoe_record 3] @ [johndoe_record 7])
   \<and> status_code (fst (post_users email_syntax 7 (PDict test_user_data) [johndoe_record 3])) = 201"
proof -
  have a: "''username'' \<in> {''username'', ''email'', ''password''}
           \<and> field ''username'' (PDict test_invalid_data) = None"
    by (simp add: test_invalid_data_def)
  have b: "post_users email_syntax 7 (PDict test_user_data) [johndoe_record 3]
       = (Inr (johndoe_response 7), [johndoe_record 3] @ [johndoe_record 7])"
    by (simp add: post_users_test_user_data)
  have c: "post_users email_syntax 7 (PDict test_invalid_data) [johndoe_record 3]
       = (Inl (RequestValidationError [([''body'', ''username''], missing)]), [johndoe_record 3])"
    by (simp add: post_users_test_invalid_data)
  from missing_required_field_rejected
    [where k = "''username''" and body = "PDict test_invalid_data" and ev = email_syntax
       and now = 7 and db = "[johndoe_record 3]" and ?body2.0 = "PDict test_user_data"
       and ?now2.0 = 7 and ?db2.0 = "[johndoe_record 3]" and r = "johndoe_response 7"
       and ?db2' = "[johndoe_record 3] @ [johndoe_record 7]"]
    a b c
  show ?thesis by simp
qed

text \<open>
  C4: when the \<^verbatim>\<open>email\<close> value of a body is no e-mail address (it is not a string, or
  the address validator rejects the string), registration is answered with a request
  validation error, status 422, whose detail list has an entry located at
  \<^verbatim>\<open>["body", "email"]\<close>, and the store is returned as it was.
\<close>

theorem malformed_email_rejected:
  assumes "map_of d ''email'' = Some v" and "rejected_email ev v"
  shows "\<exists>es t. post_users ev now (PDict d) db = (Inl (RequestValidationError es), db)
           \<and> ([''body'', ''email''], t) \<in> set es
           \<and> status_code (fst (post_users ev now (PDict d) db)) = 422"
proof -
  from UserCreate_validate_bad_email [OF assms] obtain es t where
    "UserCreate_validate ev (PDict d) = Inl es" and "([''body'', ''email''], t) \<in> set es"
    by blast
  then show ?thesis
    by (auto simp: post_users_request_error)
qed

theorem malformed_email_rejected_witness:
  "map_of [(''username'', PStr ''johndoe''), (''email'', PStr ''not-an-email''),
           (''password'', PStr ''securepassword123'')] ''email'' = Some (PStr ''not-an-email'')
   \<and> rejected_email email_syntax (PStr ''not-an-email'')
   \<and> post_users email_syntax 7
        (PDict [(''username'', PStr ''johndoe''), (''email'', PStr ''not-an-email''),
                (''password'', PStr ''securepassword123'')]) [johndoe_record 3]
       = (Inl (RequestValidationError [([''body'', ''email''], value_error)]), [johndoe_record 3])"
proof -
  let ?d = "[(''username'', PStr ''johndoe''), (''email'', PStr ''not-an-email''),
             (''password'', PStr ''securepassword123'')]"
  have a: "map_of ?d ''email'' = Some (PStr ''not-an-email'')"
    by simp
  have b: "rejected_email email_syntax (PStr ''not-an-email'')"
    by (simp add: email_syntax_def)
  have c: "post_users email_syntax 7 (PDict ?d) [johndoe_record 3]
       = (Inl (RequestValidationError [([''body'', ''email''], value_error)]), [johndoe_record 3])"
    by (simp add: service_defs)
  from malformed_email_rejected [OF a b, of 7 "[johndoe_record 3]"] a b c
  show ?thesis by simp
qed

text \<open>
  C8: a body that has a string \<^verbatim>\<open>username\<close>, a string \<^verbatim>\<open>password\<close> and a valid
  \<^verbatim>\<open>email\<close>, and that omits \<^verbatim>\<open>full_name\<close>, is registered (status 201), and the
  \<^verbatim>\<open>full_name\<close> of the response is \<^verbatim>\<open>None\<close>. A valid address is one the validator
  accepts both as submitted and in the normalised form it returned, since the response
  schema checks the stored, normalised address once more.
\<close>

theorem omitted_full_name_accepted:
  assumes "map_of d ''username'' = Some (PStr u)"
    and "map_of d ''email'' = Some (PStr e)" and "ev e = Some n" and "ev n = Some m"
    and "map_of d ''password'' = Some (PStr p)"
    and "map_of d ''full_name'' = None"
  shows "fst (post_users ev now (PDict d) db) =
           Inr [(''username'', PStr u), (''email'', PStr m), (''full_name'', PNone),
                (''join_date'', PDatetime now)]
         \<and> status_code (fst (post_users ev now (PDict d) db)) = 201"
proof -
  let ?ud = "\<lparr>UserCreate.username = u, UserCreate.email = n, password = p,
              UserCreate.full_name = None\<rparr>"
  from assms have "UserCreate_validate ev (PDict d) = Inr ?ud"
    by (simp add: UserCreate_validate_Inr)
  with \<open>ev n = Some m\<close> have "post_users ev now (PDict d) db =
     (Inr [(''username'', PStr u), (''email'', PStr m), (''full_name'', PNone),
           (''join_date'', PDatetime now)], db @ [db_user_of now ?ud])"
    by (simp add: post_users_Inr)
  then show ?thesis by simp
qed

theorem omitted_full_name_accepted_witness:
  "map_of [(''username'', PStr ''janedoe''), (''email'', PStr ''jane@example.com''),
           (''password'', PStr ''pw'')] ''full_name'' = None
   \<and> email_syntax ''jane@example.com'' = Some ''jane@example.com''
   \<and> fst (post_users email_syntax 7
        (PDict [(''username'', PStr ''janedoe''), (''email'', PStr ''jane@example.com''),
                (''password'', PStr ''pw'')]) [])
       = Inr [(''username'', PStr ''janedoe''), (''email'', PStr ''jane@example.com''),
              (''full_name'', PNone), (''join_date'', PDatetime 7)]
   \<and> status_code (fst (post_users email_syntax 7
        (PDict [(''username'', PStr ''janedoe''), (''email'', PStr ''jane@example.com''),
                (''password'', PStr ''pw'')]) [])) = 201"
proof -
  let ?d = "[(''username'', PStr ''janedoe''), (''email'', PStr ''jane@example.com''),
             (''password'', PStr ''pw'')]"
  have u: "map_of ?d ''username'' = Some (PStr ''janedoe'')"
    and e: "map_of ?d ''email'' = Some (PStr ''jane@example.com'')"
    and p: "map_of ?d ''password'' = Some (PStr ''pw'')"
    and f: "map_of ?d ''full_name'' = None"
    by simp_all
  have v: "email_syntax ''jane@example.com'' = Some ''jane@example.com''"
    by (simp add: email_syntax_def)
  from omitted_full_name_accepted
    [where ev = email_syntax and now = 7 and db = "[]", OF u e v v p f] f v
  show ?thesis by simp
qed

text \<open>
  C6: for every successful registration, the record appended to the store carries
  under \<^verbatim>\<open>hashed_password\<close> (the specification's password digest) the fixed marker
  \<^verbatim>\<open>hashed_\<close> followed by the submitted plaintext password. The digest is a
  function of the password alone: a second successful registration with the same
  password, whatever the validator, the clock, the rest of the body and the store,
  stores the same digest.
\<close>

theorem hashed_password_derivation:
  assumes "post_users ev now body db = (Inr r, db')"
    and "field ''password'' body = Some (PStr p)"
    and "post_users ev2 now2 body2 db2 = (Inr r2, db2')"
    and "field ''password'' body2 = Some (PStr p)"
  shows "(\<exists>rec. db' = db @ [rec]
            \<and> map_of rec ''hashed_password'' = Some (PStr (''hashed_'' @ p)))
         \<and> (\<exists>rec2. db2' = db2 @ [rec2]
            \<and> map_of rec2 ''hashed_password'' = Some (PStr (''hashed_'' @ p)))"
proof -
  have digest: "\<exists>rec. db1' = db1 @ [rec]
            \<and> map_of rec ''hashed_password'' = Some (PStr (''hashed_'' @ p))"
    if ok: "post_users v t b db1 = (Inr r1, db1')" and pw: "field ''password'' b = Some (PStr p)"
    for v t b db1 r1 db1'
  proof -
    from post_users_appends [OF ok] obtain d ud where
      "b = PDict d" "map_of d ''password'' = Some (PStr (password ud))"
      "db1' = db1 @ [db_user_of t ud]"
      by blast
    with pw show ?thesis by (auto simp: db_user_of_simps)
  qed
  from digest [OF assms(1,2)] digest [OF assms(3,4)] show ?thesis by blast
qed

theorem hashed_password_derivation_witness:
  "post_users email_syntax 1 (PDict test_user_data) [] = (Inr (johndoe_response 1), [johndoe_record 1])
   \<and> map_of (johndoe_record 1) ''hashed_password'' = Some (PStr ''hashed_securepassword123'')
   \<and> post_users email_syntax 2
        (PDict [(''username'', PStr ''janedoe''), (''email'', PStr ''jane@example.com''),
                (''password'', PStr ''securepassword123'')]) [johndoe_record 1]
       = (Inr [(''username'', PStr ''janedoe''), (''email'', PStr ''jane@example.com''),
               (''full_name'', PNone), (''join_date'', PDatetime 2)],
          [johndoe_record 1,
           [(''username'', PStr ''janedoe''), (''email'', PStr ''jane@example.com''),
            (''full_name'', PNone), (''join_date'', PDatetime 2),
            (''hashed_password'', PStr ''hashed_securepassword123'')]])"
proof -
  let ?jane = "PDict [(''username'', PStr ''janedoe''), (''email'', PStr ''jane@example.com''),
                (''password'', PStr ''securepassword123'')]"
  have a: "post_users email_syntax 1 (PDict test_user_data) []
      = (Inr (johndoe_response 1), [johndoe_record 1])"
    by (simp add: post_users_test_user_data)
  have b: "field ''password'' (PDict test_user_data) = Some (PStr ''securepassword123'')"
    by (simp add: test_user_data_def)
  have c: "post_users email_syntax 2 ?jane [johndoe_record 1]
       = (Inr [(''username'', PStr ''janedoe''), (''email'', PStr ''jane@example.com''),
               (''full_name'', PNone), (''join_date'', PDatetime 2)],
          [johndoe_record 1,
           [(''username'', PStr ''janedoe''), (''email'', PStr ''jane@example.com''),
            (''full_name'', PNone), (''join_date'', PDatetime 2),
            (''hashed_password'', PStr ''hashed_securepassword123'')]])"
    by (simp add: service_defs)
  have d: "field ''password'' ?jane = Some (PStr ''securepassword123'')"
    by simp
  from hashed_password_derivation [OF a b c d] a c show ?thesis
    by (simp add: johndoe_record_def)
qed

text \<open>
  C10: unknown fields of a body are ignored. If a body agrees with a body that is
  registered successfully on the four declared fields \<^verbatim>\<open>username\<close>, \<^verbatim>\<open>email\<close>,
  \<^verbatim>\<open>password\<close>, \<^verbatim>\<open>full_name\<close>, whatever else it contains, it is registered
  successfully too, with the same response and the same store; and the record
  appended has exactly the five fields \<^verbatim>\<open>username\<close>, \<^verbatim>\<open>email\<close>, \<^verbatim>\<open>full_name\<close>,
  \<^verbatim>\<open>join_date\<close>, \<^verbatim>\<open>hashed_password\<close>.
\<close>

theorem unknown_fields_ignored:
  assumes "\<forall>k \<in> set UserCreate_fields. map_of d' k = map_of d k"
    and "post_users ev now (PDict d) db = (Inr r, db')"
  shows "post_users ev now (PDict d') db = (Inr r, db')
         \<and> (\<exists>rec. db' = db @ [rec]
              \<and> map fst rec
                  = [''username'', ''email'', ''full_name'', ''join_date'', ''hashed_password''])"
proof -
  from assms(1) have "UserCreate_validate ev (PDict d') = UserCreate_validate ev (PDict d)"
    by (simp add: UserCreate_validate_def UserCreate_fields_def)
  then have "post_users ev now (PDict d') db = post_users ev now (PDict d) db"
    by (simp add: post_users_def)
  moreover from post_users_appends [OF assms(2)]
  have "\<exists>rec. db' = db @ [rec]
          \<and> map fst rec = [''username'', ''email'', ''full_name'', ''join_date'', ''hashed_password'']"
    by (auto simp: db_user_of_simps)
  ultimately show ?thesis using assms(2) by simp
qed

theorem unknown_fields_ignored_witness:
  "post_users email_syntax 7
     (PDict ((''is_admin'', PBool True) # test_user_data @ [(''hashed_password'', PStr ''x'')])) []
     = (Inr (johndoe_response 7), [johndoe_record 7])
   \<and> map fst (johndoe_record 7)
       = [''username'', ''email'', ''full_name'', ''join_date'', ''hashed_password'']"
proof -
  let ?d' = "(''is_admin'', PBool True) # test_user_data @ [(''hashed_password'', PStr ''x'')]"
  have a: "\<forall>k \<in> set UserCreate_fields. map_of ?d' k = map_of test_user_data k"
    by (simp add: UserCreate_fields_def test_user_data_def)
  have b: "post_users email_syntax 7 (PDict test_user_data) []
      = (Inr (johndoe_response 7), [johndoe_record 7])"
    by (simp add: post_users_test_user_data)
  from unknown_fields_ignored [OF a b] show ?thesis
    by (simp add: johndoe_record_def)
qed


section \<open>Claims about the store\<close>

text \<open>
  C5, as stated, says that no registration can place a record with an empty
  \<^verbatim>\<open>username\<close> into the store. \<^verbatim>\<open>username: str\<close> carries no length constraint: the
  body below, whose \<^verbatim>\<open>username\<close> is the empty string, is registered with status 201,
  and the store then holds a record whose \<^verbatim>\<open>username\<close> is empty.
\<close>

theorem empty_username_counterexample:
  "post_users email_syntax 7
     (PDict [(''username'', PStr []), (''email'', PStr ''john@example.com''),
             (''password'', PStr ''securepassword123'')]) []
     = (Inr [(''username'', PStr []), (''email'', PStr ''john@example.com''),
             (''full_name'', PNone), (''join_date'', PDatetime 7)],
        [[(''username'', PStr []), (''email'', PStr ''john@example.com''),
          (''full_name'', PNone), (''join_date'', PDatetime 7),
          (''hashed_password'', PStr ''hashed_securepassword123'')]])
   \<and> status_code (fst (post_users email_syntax 7
       (PDict [(''username'', PStr []), (''email'', PStr ''john@example.com''),
               (''password'', PStr ''securepassword123'')]) [])) = 201
   \<and> map (\<lambda>r. map_of r ''username'')
       (run email_syntax [(7, POST_users
          (PDict [(''username'', PStr []), (''email'', PStr ''john@example.com''),
                  (''password'', PStr ''securepassword123'')]))])
     = [Some (PStr [])]"
  by (simp add: run_def service_defs)

text \<open>
  C5 (amended): after any history of requests, every record of the store has a
  \<^verbatim>\<open>username\<close> that is a string (no constraint on its length is enforced) and an
  \<^verbatim>\<open>email\<close> that is the normalised form of an address the validator accepted.
\<close>

theorem stored_username_and_email:
  "\<forall>r \<in> set (run ev reqs).
     (\<exists>u. map_of r ''username'' = Some (PStr u))
     \<and> (\<exists>s n. ev s = Some n \<and> map_of r ''email'' = Some (PStr n))"
  using run_well_formed [of _ ev reqs] unfolding well_formed_record_def by blast

theorem stored_username_and_email_witness:
  "run email_syntax
     [(1, POST_users (PDict test_user_data)), (2, POST_users (PDict test_invalid_data)),
      (3, GET_users)]
     = [johndoe_record 1]
   \<and> map_of (johndoe_record 1) ''username'' = Some (PStr ''johndoe'')
   \<and> email_syntax ''john@example.com'' = Some ''john@example.com''
   \<and> map_of (johndoe_record 1) ''email'' = Some (PStr ''john@example.com'')"
proof -
  let ?h = "[(1, POST_users (PDict test_user_data)), (2, POST_users (PDict test_invalid_data)),
             (3, GET_users)]"
  have a: "run email_syntax ?h = [johndoe_record 1]"
    by (simp add: run_def post_users_test_user_data post_users_test_invalid_data
        get_all_users_def)
  have b: "email_syntax ''john@example.com'' = Some ''john@example.com''"
    by (simp add: email_syntax_def)
  from stored_username_and_email [of email_syntax ?h] a b show ?thesis
    by (simp add: johndoe_record_def)
qed

text \<open>
  C3, as stated, promises time stamps that never decrease along the store. The time
  stamp is whatever \<^verbatim>\<open>datetime.now()\<close> reads when the handler runs, the local wall
  clock, and nothing in the service compares it with the stamps already stored: two
  successful registrations made while the clock reads 2 and then 1 (a clock that was
  set back in between) leave the stamps 2, 1 in the store.
\<close>

theorem join_date_order_counterexample:
  "map_option (map join_date_of)
     (register_all email_syntax [(2, PDict test_user_data), (1, PDict test_user_data)] [])
     = Some [Some 2, Some 1]
   \<and> map_option nondecreasing_join_dates
       (register_all email_syntax [(2, PDict test_user_data), (1, PDict test_user_data)] [])
     = Some False"
  by (simp add: post_users_test_user_data nondecreasing_join_dates_def johndoe_record_def)

text \<open>
  C3 (amended): after N successful registrations in sequence, starting from the empty
  store, the listing returns exactly N records, the i-th being the record built from
  the i-th submitted body and stamped with the i-th clock reading, so the records
  stand in the order of submission; their \<^verbatim>\<open>join_date\<close> stamps are non-decreasing
  exactly when the clock readings taken by the registrations were non-decreasing.
  No request removes or reorders records: the store before any request is a prefix of
  the store after it.
\<close>

theorem registrations_in_order:
  assumes "register_all ev xs [] = Some db"
  shows "run ev (map (\<lambda>(t, body). (t, POST_users body)) xs) = db
     \<and> fst (get_all_users db) = db
     \<and> length (fst (get_all_users db)) = length xs
     \<and> map Some (fst (get_all_users db)) = map (\<lambda>(t, body). stored_record ev t body) xs
     \<and> map (\<lambda>r. map_of r ''username'') (fst (get_all_users db))
         = map (\<lambda>(t, body). field ''username'' body) xs
     \<and> map join_date_of (fst (get_all_users db)) = map (\<lambda>(t, body). Some t) xs
     \<and> (nondecreasing_join_dates db \<longleftrightarrow> sorted (map fst xs))
     \<and> prefix db0 (step ev req db0)"
proof -
  from register_all_store [OF assms] have
    recs: "map Some db = map (\<lambda>(t, body). stored_record ev t body) xs"
    and names: "map (\<lambda>r. map_of r ''username'') db = map (\<lambda>(t, body). field ''username'' body) xs"
    and dates: "map join_date_of db = map (\<lambda>(t, body). Some t) xs"
    by simp_all
  from recs have len: "length db = length xs"
    by (metis length_map)
  have "map (\<lambda>(t, body). Some t) xs = map Some (map fst xs)"
    by (simp add: case_prod_beta comp_def)
  with dates have "those (map join_date_of db) = Some (map fst xs)"
    by (simp only: those_map_Some)
  then have "nondecreasing_join_dates db \<longleftrightarrow> sorted (map fst xs)"
    by (simp add: nondecreasing_join_dates_def)
  with recs names dates len register_all_run [OF assms] step_prefix [of db0 ev req]
  show ?thesis by (simp add: get_all_users_def run_def)
qed

theorem registrations_in_order_witness:
  "register_all email_syntax [(1, PDict test_user_data), (2, PDict test_user_data)] []
     = Some [johndoe_record 1, johndoe_record 2]
   \<and> fst (get_all_users [johndoe_record 1, johndoe_record 2])
       = [johndoe_record 1, johndoe_record 2]
   \<and> map join_date_of [johndoe_record 1, johndoe_record 2] = [Some 1, Some 2]
   \<and> nondecreasing_join_dates [johndoe_record 1, johndoe_record 2]
   \<and> step email_syntax (3, POST_users (PDict test_invalid_data)) [johndoe_record 1]
       = [johndoe_record 1]"
proof -
  have h: "register_all email_syntax [(1, PDict test_user_data), (2, PDict test_user_data)] []
     = Some [johndoe_record 1, johndoe_record 2]"
    by (simp add: post_users_test_user_data)
  have s: "step email_syntax (3, POST_users (PDict test_invalid_data)) [johndoe_record 1]
       = [johndoe_record 1]"
    by (simp add: post_users_test_invalid_data)
  from registrations_in_order
    [OF h, of "[johndoe_record 1]" "(3, POST_users (PDict test_invalid_data))"] h s
  show ?thesis by (simp add: get_all_users_def johndoe_record_def)
qed

text \<open>
  C7: the listing returns the store itself, whole and in insertion order, and leaves
  it unchanged; nothing is paged, filtered or shaped. After any history of requests,
  every record it returns is the raw stored dictionary with its five fields, the
  \<^verbatim>\<open>hashed_password\<close> digest among them.
\<close>

theorem get_all_users_raw:
  "get_all_users db = (db, db)
   \<and> fst (get_all_users (run ev reqs)) = run ev reqs
   \<and> (\<forall>r \<in> set (fst (get_all_users (run ev reqs))).
        map fst r = [''username'', ''email'', ''full_name'', ''join_date'', ''hashed_password'']
        \<and> (\<exists>p. map_of r ''hashed_password'' = Some (PStr (''hashed_'' @ p))))"
  using run_well_formed [of _ ev reqs]
  unfolding well_formed_record_def get_all_users_def fst_conv
  by blast

theorem get_all_users_raw_witness:
  "fst (get_all_users (run email_syntax
     [(1, POST_users (PDict test_user_data)), (2, GET_root),
      (3, POST_users (PDict test_user_data))]))
     = [johndoe_record 1, johndoe_record 3]
   \<and> map fst (johndoe_record 1)
       = [''username'', ''email'', ''full_name'', ''join_date'', ''hashed_password'']
   \<and> map_of (johndoe_record 1) ''hashed_password'' = Some (PStr ''hashed_securepassword123'')"
proof -
  let ?h = "[(1, POST_users (PDict test_user_data)), (2, GET_root),
             (3, POST_users (PDict test_user_data))]"
  have a: "run email_syntax ?h = [johndoe_record 1, johndoe_record 3]"
    by (simp add: run_def post_users_test_user_data root_def)
  from get_all_users_raw [of "[]" email_syntax ?h] a show ?thesis
    by (simp add: johndoe_record_def)
qed


section \<open>The liveness operation\<close>

text \<open>
  C9: \<^verbatim>\<open>GET /\<close> always answers with the constant body
  \<^verbatim>\<open>{"message": "FastAPI Server is running!"}\<close> and leaves the store as it is,
  whatever the store holds and however often it is called.
\<close>

theorem root_constant:
  "fst (root db) = [(''message'', PStr ''FastAPI Server is running!'')]
   \<and> snd (root db) = db
   \<and> ((\<lambda>s. snd (root s)) ^^ n) db = db
   \<and> step ev (now, GET_root) db = db"
proof -
  have "((\<lambda>s. snd (root s)) ^^ n) db = db"
    by (induction n) (simp_all add: root_def)
  then show ?thesis by (simp add: root_def)
qed

end
